theory Spec2Isabelle
  imports Main "HOL-Library.Word"
begin

unbundle bit_operations_syntax

section \<open>Go values and run-time panics\<close>

text \<open>
  A Go \<open>[]byte\<close> is a list of 8-bit words, a Go \<open>string\<close> is a HOL string (one
  character per byte). \<open>[]byte(s)\<close> and \<open>string(b)\<close> convert between them byte by
  byte. A slice is modelled with its capacity equal to its length.
\<close>

type_synonym byte = "8 word"

definition bytes_of_string :: "string \<Rightarrow> byte list" where
  "bytes_of_string s = map (\<lambda>c. of_nat (of_char c)) s"

definition string_of_bytes :: "byte list \<Rightarrow> string" where
  "string_of_bytes b = map (\<lambda>x. char_of (unat x)) b"

text \<open>
  Go code either returns or panics. The run-time panics that the modelled code can
  raise are the bounds checks of index and slice expressions and a failed type
  assertion.
\<close>

datatype panic = IndexOutOfRange | SliceBoundsOutOfRange | InterfaceConversion

datatype 'a exec = Panics panic | Returns 'a

definition andThen :: "'a exec \<Rightarrow> ('a \<Rightarrow> 'b exec) \<Rightarrow> 'b exec" where
  "andThen m f = (case m of Panics p \<Rightarrow> Panics p | Returns v \<Rightarrow> f v)"

text \<open>The slice expressions \<open>a[lo:hi]\<close> and \<open>a[lo:]\<close> and the index expression \<open>a[i]\<close>.\<close>

definition slice :: "'a list \<Rightarrow> nat \<Rightarrow> nat \<Rightarrow> 'a list exec" where
  "slice a lo hi =
     (if hi \<le> length a \<and> lo \<le> hi then Returns (take (hi - lo) (drop lo a))
      else Panics SliceBoundsOutOfRange)"

definition slice_from :: "'a list \<Rightarrow> nat \<Rightarrow> 'a list exec" where
  "slice_from a lo = slice a lo (length a)"

definition index :: "'a list \<Rightarrow> nat \<Rightarrow> 'a exec" where
  "index a i = (if i < length a then Returns (a ! i) else Panics IndexOutOfRange)"

text \<open>
  \<open>binary.BigEndian.Uint32(b)\<close>: the bounds check \<open>_ = b[3]\<close>, then the four bytes,
  most significant first.
\<close>

definition be_uint32 :: "byte list \<Rightarrow> 32 word" where
  "be_uint32 b = ucast (b ! 3) OR push_bit 8 (ucast (b ! 2))
                 OR push_bit 16 (ucast (b ! 1)) OR push_bit 24 (ucast (b ! 0))"

definition BigEndian_Uint32 :: "byte list \<Rightarrow> 32 word exec" where
  "BigEndian_Uint32 b = andThen (index b 3) (\<lambda>_. Returns (be_uint32 b))"

section \<open>The request types\<close>

text \<open>
  \<open>Window\<close>, \<open>Pty\<close> and \<open>X11\<close> are the structs the decoders fill in; Go's \<open>int\<close> is
  taken as the 64-bit one, so \<open>int(w)\<close> of a \<open>uint32\<close> is its unsigned value.
\<close>

record Window =
  Width :: int
  Height :: int

record Pty =
  Term :: string
  Window :: Window

record X11 =
  SingleConnection :: bool
  AuthProtocol :: string
  AuthData :: string
  ScreenNumber :: int

definition zero_Window :: Window where
  "zero_Window = \<lparr>Width = 0, Height = 0\<rparr>"

definition zero_Pty :: Pty where
  "zero_Pty = \<lparr>Term = [], Window = zero_Window\<rparr>"

definition zero_X11 :: X11 where
  "zero_X11 = \<lparr>SingleConnection = False, AuthProtocol = [], AuthData = [], ScreenNumber = 0\<rparr>"

section \<open>The binary message parser\<close>

text \<open>
  \<open>parseString\<close>: the named results start as \<open>("", nil, false)\<close>. The declared length
  is a \<open>uint32\<close>, and so is \<open>4+length\<close>: the sum wraps modulo \<open>2^32\<close>, both in the
  comparison with \<open>uint32(len(in))\<close> and in the two slice expressions.
\<close>

definition parseString :: "byte list \<Rightarrow> (string \<times> byte list \<times> bool) exec" where
  "parseString in' =
     (if length in' < 4 then Returns ([], [], False)
      else andThen (BigEndian_Uint32 in') (\<lambda>length'.
        if (of_nat (length in') :: 32 word) < 4 + length' then Returns ([], [], False)
        else andThen (slice in' 4 (unat (4 + length'))) (\<lambda>out.
             andThen (slice_from in' (unat (4 + length'))) (\<lambda>rest.
               Returns (string_of_bytes out, rest, True)))))"

definition parseUint32 :: "byte list \<Rightarrow> (32 word \<times> byte list \<times> bool) exec" where
  "parseUint32 in' =
     (if length in' < 4 then Returns (0, [], False)
      else andThen (BigEndian_Uint32 in') (\<lambda>v.
           andThen (slice_from in' 4) (\<lambda>rest. Returns (v, rest, True))))"

definition parseBool :: "byte list \<Rightarrow> (bool \<times> byte list \<times> bool) exec" where
  "parseBool in' =
     (if length in' < 1 then Returns (False, [], False)
      else andThen (index in' 0) (\<lambda>b.
           andThen (slice_from in' 1) (\<lambda>rest. Returns (b = 1, rest, True))))"

text \<open>
  \<open>parseWinchRequest\<close>: \<open>s\<close> and \<open>ok\<close> are the parameter and the named result, assigned
  by both calls; a width or height below 1 clears \<open>ok\<close>; the named result \<open>win\<close> stays
  the zero \<open>Window\<close> on every early return.
\<close>

definition parseWinchRequest :: "byte list \<Rightarrow> (Window \<times> bool) exec" where
  "parseWinchRequest s =
     andThen (parseUint32 s) (\<lambda>(width32, s, ok).
       let ok = (if width32 < 1 then False else ok) in
       if \<not> ok then Returns (zero_Window, ok)
       else andThen (parseUint32 s) (\<lambda>(height32, _, ok).
         let ok = (if height32 < 1 then False else ok) in
         if \<not> ok then Returns (zero_Window, ok)
         else Returns (\<lparr>Width = uint width32, Height = uint height32\<rparr>, ok)))"

definition parsePtyRequest :: "byte list \<Rightarrow> (Pty \<times> bool) exec" where
  "parsePtyRequest s =
     andThen (parseString s) (\<lambda>(term, s, ok).
       if \<not> ok then Returns (zero_Pty, ok)
       else andThen (parseUint32 s) (\<lambda>(width32, s, ok).
         if \<not> ok then Returns (zero_Pty, ok)
         else andThen (parseUint32 s) (\<lambda>(height32, _, ok).
           if \<not> ok then Returns (zero_Pty, ok)
           else Returns (\<lparr>Term = term,
                   Window = \<lparr>Width = uint width32, Height = uint height32\<rparr>\<rparr>, ok))))"

definition parseX11Request :: "byte list \<Rightarrow> (X11 \<times> bool) exec" where
  "parseX11Request s =
     andThen (parseBool s) (\<lambda>(single, s, ok).
       if \<not> ok then Returns (zero_X11, ok)
       else andThen (parseString s) (\<lambda>(protocol, s, ok).
         if \<not> ok then Returns (zero_X11, ok)
         else andThen (parseString s) (\<lambda>(data, s, ok).
           if \<not> ok then Returns (zero_X11, ok)
           else andThen (parseUint32 s) (\<lambda>(screen, _, ok).
             if \<not> ok then Returns (zero_X11, ok)
             else Returns (\<lparr>SingleConnection = single, AuthProtocol = protocol,
                     AuthData = data, ScreenNumber = uint screen\<rparr>, ok)))))"

section \<open>Errors and the host platform\<close>

text \<open>
  The error values of the modelled code: the two errors of \<open>hex.DecodeString\<close>, the
  error \<open>Accept\<close> gives on a closed listener, and the errors of system calls.
\<close>

datatype error = InvalidByteError char | ErrLength | ErrClosed | SyscallError string

text \<open>
  What the code asks of the operating system and the platform is a parameter of the
  model: each field is the result the call gives when the code makes it.
  \<^item> \<open>Hostname\<close>: \<open>os.Hostname()\<close>;
  \<^item> \<open>isLittleEndian\<close>: the first byte in memory of the \<open>int32\<close> \<open>0x01020304\<close> is \<open>0x04\<close>;
  \<^item> \<open>AF_LOCAL\<close>: \<open>syscall.AF_LOCAL\<close>;
  \<^item> \<open>CreateTemp\<close>: \<open>os.CreateTemp("", ".Xauthority")\<close>, the name of the new file;
  \<^item> \<open>Listen\<close>: \<open>net.Listen("tcp", addr)\<close> for the address \<open>addr\<close>, \<open>None\<close> when the
    bind succeeds;
  \<^item> \<open>WriteFile\<close>: \<open>os.WriteFile(name, buf, 0600)\<close>, \<open>None\<close> when the write succeeds.
\<close>

record env =
  Hostname :: "error + string"
  isLittleEndian :: bool
  AF_LOCAL :: "16 word"
  CreateTemp :: "error + string"
  Listen :: "string \<Rightarrow> error option"
  WriteFile :: "string \<Rightarrow> byte list \<Rightarrow> error option"

section \<open>Library functions used by the authority cookie builder\<close>

text \<open>\<open>hex.DecodeString\<close>: two hexadecimal digits of either case per byte.\<close>

definition fromHexChar :: "char \<Rightarrow> byte option" where
  "fromHexChar c =
     (let n = (of_char c :: nat) in
      if 48 \<le> n \<and> n \<le> 57 then Some (of_nat (n - 48))
      else if 97 \<le> n \<and> n \<le> 102 then Some (of_nat (n - 97 + 10))
      else if 65 \<le> n \<and> n \<le> 70 then Some (of_nat (n - 65 + 10))
      else None)"

fun DecodeString :: "string \<Rightarrow> error + byte list" where
  "DecodeString [] = Inr []"
| "DecodeString [p] =
     (case fromHexChar p of None \<Rightarrow> Inl (InvalidByteError p) | Some _ \<Rightarrow> Inl ErrLength)"
| "DecodeString (p # q # s) =
     (case fromHexChar p of None \<Rightarrow> Inl (InvalidByteError p)
      | Some a \<Rightarrow>
        (case fromHexChar q of None \<Rightarrow> Inl (InvalidByteError q)
         | Some b \<Rightarrow>
           (case DecodeString s of Inl e \<Rightarrow> Inl e
            | Inr d \<Rightarrow> Inr ((push_bit 4 a OR b) # d))))"

text \<open>\<open>strconv.Itoa\<close>: the decimal digits, after a minus sign for a negative number.\<close>

fun digits :: "nat \<Rightarrow> string" where
  "digits n = (if n < 10 then [char_of (48 + n)]
               else digits (n div 10) @ [char_of (48 + n mod 10)])"

definition Itoa :: "int \<Rightarrow> string" where
  "Itoa i = (if i < 0 then CHR ''-'' # digits (nat (- i)) else digits (nat i))"

text \<open>
  \<open>binary.BigEndian.PutUint16(buf[pos:], v)\<close> and its little-endian twin: the slice
  expression, the bounds check \<open>_ = b[1]\<close>, then the two bytes, stored in \<open>buf\<close> itself
  since the slice shares its array. \<open>copy(buf[pos:], src)\<close> copies as many bytes as
  both slices hold.
\<close>

definition BigEndian_PutUint16 :: "byte list \<Rightarrow> nat \<Rightarrow> 16 word \<Rightarrow> byte list exec" where
  "BigEndian_PutUint16 buf pos v =
     andThen (slice_from buf pos) (\<lambda>b.
     andThen (index b 1) (\<lambda>_.
       Returns (buf[pos := ucast (drop_bit 8 v), pos + 1 := ucast v])))"

definition LittleEndian_PutUint16 :: "byte list \<Rightarrow> nat \<Rightarrow> 16 word \<Rightarrow> byte list exec" where
  "LittleEndian_PutUint16 buf pos v =
     andThen (slice_from buf pos) (\<lambda>b.
     andThen (index b 1) (\<lambda>_.
       Returns (buf[pos := ucast v, pos + 1 := ucast (drop_bit 8 v)])))"

definition copy :: "byte list \<Rightarrow> nat \<Rightarrow> byte list \<Rightarrow> byte list exec" where
  "copy buf pos src =
     andThen (slice_from buf pos) (\<lambda>dst.
       let n = min (length dst) (length src)
       in Returns (take pos buf @ take n src @ drop (pos + n) buf))"

text \<open>The two bytes of a \<open>uint16\<close>, most significant first and least significant first.\<close>

definition be16 :: "16 word \<Rightarrow> byte list" where
  "be16 v = [ucast (drop_bit 8 v), ucast v]"

definition le16 :: "16 word \<Rightarrow> byte list" where
  "le16 v = [ucast v, ucast (drop_bit 8 v)]"

section \<open>The authority cookie builder\<close>

text \<open>
  \<open>prepareXAuthority\<close>: the four lengths, their sum and \<open>pos\<close> are \<open>uint16\<close> values, so
  each conversion and each addition is modulo \<open>2^16\<close>.
\<close>

definition prepareXAuthority :: "env \<Rightarrow> X11 \<Rightarrow> int \<Rightarrow> (error + byte list) exec" where
  "prepareXAuthority e request seat =
     (case DecodeString (AuthData request) of Inl err \<Rightarrow> Returns (Inl err)
      | Inr data \<Rightarrow>
     (case Hostname e of Inl err \<Rightarrow> Returns (Inl err)
      | Inr hostname \<Rightarrow>
       let family = AF_LOCAL e;
           number = Itoa seat;
           addrLen = (of_nat (length hostname) :: 16 word);
           numberLen = (of_nat (length number) :: 16 word);
           nameLen = (of_nat (length (AuthProtocol request)) :: 16 word);
           dataLen = (of_nat (length data) :: 16 word);
           buf = replicate (unat (addrLen + numberLen + nameLen + dataLen + 10)) (0 :: byte);
           pos = (0 :: 16 word)
       in andThen (if isLittleEndian e then LittleEndian_PutUint16 buf (unat pos) family
                   else BigEndian_PutUint16 buf (unat pos) family) (\<lambda>buf.
          let pos = pos + 2 in
          andThen (BigEndian_PutUint16 buf (unat pos) addrLen) (\<lambda>buf.
          let pos = pos + 2 in
          andThen (copy buf (unat pos) (bytes_of_string hostname)) (\<lambda>buf.
          let pos = pos + addrLen in
          andThen (BigEndian_PutUint16 buf (unat pos) numberLen) (\<lambda>buf.
          let pos = pos + 2 in
          andThen (copy buf (unat pos) (bytes_of_string number)) (\<lambda>buf.
          let pos = pos + numberLen in
          andThen (BigEndian_PutUint16 buf (unat pos) nameLen) (\<lambda>buf.
          let pos = pos + 2 in
          andThen (copy buf (unat pos) (bytes_of_string (AuthProtocol request))) (\<lambda>buf.
          let pos = pos + nameLen in
          andThen (BigEndian_PutUint16 buf (unat pos) dataLen) (\<lambda>buf.
          let pos = pos + 2 in
          andThen (copy buf (unat pos) data) (\<lambda>buf.
            Returns (Inr buf))))))))))))"

section \<open>Reading an authority record back\<close>

text \<open>
  The reader that the round-trip property speaks of, following the record layout: a
  2-byte family in the host's byte order, then the address, the display number, the
  protocol name and the data, each after its big-endian \<open>uint16\<close> length. It fills the
  \<open>XAuthority\<close> struct and gives the bytes after the record.
\<close>

record XAuthority =
  Family :: "16 word"
  AddrLen :: "16 word"
  Addr :: string
  NumberLen :: "16 word"
  Number :: string
  NameLen :: "16 word"
  Name :: string
  DataLen :: "16 word"
  Data :: string

definition be_uint16 :: "byte list \<Rightarrow> 16 word" where
  "be_uint16 b = ucast (b ! 1) OR push_bit 8 (ucast (b ! 0))"

definition le_uint16 :: "byte list \<Rightarrow> 16 word" where
  "le_uint16 b = ucast (b ! 0) OR push_bit 8 (ucast (b ! 1))"

definition readField :: "byte list \<Rightarrow> (16 word \<times> byte list \<times> byte list) option" where
  "readField b =
     (if length b < 2 then None
      else let n = be_uint16 b
           in if length b - 2 < unat n then None
              else Some (n, take (unat n) (drop 2 b), drop (2 + unat n) b))"

definition readXAuthority :: "bool \<Rightarrow> byte list \<Rightarrow> (XAuthority \<times> byte list) option" where
  "readXAuthority little b =
     (if length b < 2 then None
      else
       (case readField (drop 2 b) of None \<Rightarrow> None
        | Some (al, a, b1) \<Rightarrow>
       (case readField b1 of None \<Rightarrow> None
        | Some (nl, n, b2) \<Rightarrow>
       (case readField b2 of None \<Rightarrow> None
        | Some (ml, m, b3) \<Rightarrow>
       (case readField b3 of None \<Rightarrow> None
        | Some (dl, d, b4) \<Rightarrow>
          Some (\<lparr>Family = (if little then le_uint16 b else be_uint16 b),
                  AddrLen = al, Addr = string_of_bytes a,
                  NumberLen = nl, Number = string_of_bytes n,
                  NameLen = ml, Name = string_of_bytes m,
                  DataLen = dl, Data = string_of_bytes d\<rparr>, b4))))))"

section \<open>The display allocator\<close>

definition X11DisplayHost :: string where
  "X11DisplayHost = ''localhost''"

definition X11DisplayBasePort :: int where
  "X11DisplayBasePort = 6000"

definition X11DisplayOffset :: int where
  "X11DisplayOffset = 10"

text \<open>\<open>net.JoinHostPort\<close>: the host, in brackets when it holds a colon or a percent sign.\<close>

definition JoinHostPort :: "string \<Rightarrow> string \<Rightarrow> string" where
  "JoinHostPort host port =
     (if CHR '':'' \<in> set host \<or> CHR ''%'' \<in> set host then ''['' @ host @ '']:'' @ port
      else host @ '':'' @ port)"

text \<open>
  The part of the machine that the allocator changes: the files by name, the addresses
  with a bound listener, and the lines written by \<open>log.Println\<close>. A \<open>net.Listener\<close> is
  the address it is bound to, an \<open>*os.File\<close> the name of its file.
\<close>

record world =
  files :: "string \<rightharpoonup> byte list"
  listeners :: "string set"
  logged :: "error list"

definition Remove :: "string \<Rightarrow> world \<Rightarrow> world" where
  "Remove name w = w\<lparr>files := (files w)(name := None)\<rparr>"

definition Close :: "string \<Rightarrow> world \<Rightarrow> world" where
  "Close ln w = w\<lparr>listeners := listeners w - {ln}\<rparr>"

definition Println :: "error \<Rightarrow> world \<Rightarrow> world" where
  "Println err w = w\<lparr>logged := logged w @ [err]\<rparr>"

text \<open>The address tried by attempt \<open>i\<close>.\<close>

definition candidate :: "nat \<Rightarrow> string" where
  "candidate i = JoinHostPort X11DisplayHost (Itoa (X11DisplayBasePort + X11DisplayOffset + int i))"

text \<open>
  The loop of \<open>NewX11Forwarder\<close> from attempt \<open>i\<close> on. The parameter \<open>err\<close> is the
  variable \<open>err\<close> of the function body, which the statement after the loop returns.
  Inside the loop body \<open>ln, err := net.Listen(...)\<close> declares a new \<open>err\<close> (here
  \<open>err1\<close>), and \<open>buf, err := prepareXAuthority(...)\<close> another one inside the \<open>if\<close>
  (here \<open>err2\<close>, also assigned by \<open>os.WriteFile\<close>): neither assigns the outer variable.
  A panic of \<open>prepareXAuthority\<close> leaves the function at once, no call being deferred.
\<close>

function attempts ::
  "env \<Rightarrow> X11 \<Rightarrow> string \<Rightarrow> error option \<Rightarrow> nat \<Rightarrow> world \<Rightarrow>
     world \<times> (string option \<times> string option \<times> error option) exec" where
  "attempts e request xauthFile err i w =
     (if i < 50 then
        (let addr = candidate i in
         case Listen e addr of
           None \<Rightarrow>
             (let w = w\<lparr>listeners := insert addr (listeners w)\<rparr> in
              case prepareXAuthority e request (X11DisplayOffset + int i) of
                Panics p \<Rightarrow> (w, Panics p)
              | Returns (Inl err2) \<Rightarrow>
                  (Remove xauthFile (Close addr w), Returns (None, None, Some err2))
              | Returns (Inr buf) \<Rightarrow>
                  (case WriteFile e xauthFile buf of
                     Some err2 \<Rightarrow>
                       (Remove xauthFile (Close addr w), Returns (None, None, Some err2))
                   | None \<Rightarrow>
                       (w\<lparr>files := (files w)(xauthFile \<mapsto> buf)\<rparr>,
                        Returns (Some addr, Some xauthFile, None))))
         | Some err1 \<Rightarrow> attempts e request xauthFile err (Suc i) (Println err1 w))
      else (Remove xauthFile w, Returns (None, None, err)))"
  by pat_completeness auto
termination
  by (relation "measure (\<lambda>(e, request, xauthFile, err, i, w). 50 - i)") auto

declare attempts.simps [simp del]

text \<open>
  \<open>NewX11Forwarder\<close>: \<open>xauthFile, err := os.CreateTemp(...)\<close> assigns the \<open>err\<close> declared
  by \<open>var err error\<close>; past the check it is nil, and the new file is empty.
\<close>

definition NewX11Forwarder ::
  "env \<Rightarrow> X11 \<Rightarrow> world \<Rightarrow> world \<times> (string option \<times> string option \<times> error option) exec" where
  "NewX11Forwarder e request w =
     (case CreateTemp e of
        Inl err \<Rightarrow> (w, Returns (None, None, Some err))
      | Inr xauthFile \<Rightarrow>
          (let err = None;
               w = w\<lparr>files := (files w)(xauthFile \<mapsto> [])\<rparr>
           in attempts e request xauthFile err 0 w))"

section \<open>The forwarding engine\<close>

text \<open>
  What the engine meets: the result of its \<open>k\<close>-th call of \<open>l.Accept()\<close>, a connection
  or an error, and whether the value under \<open>ContextKeyConn\<close> in the session's context is
  a \<open>gossh.Conn\<close>. The engine's actions are recorded in order; the goroutine started for
  a connection is one action, and what it does to the connection and its channel is not
  modelled: it touches neither the listener nor the authority file.
\<close>

type_synonym conn = nat

record session =
  Accept :: "nat \<Rightarrow> error + conn"
  ContextConn :: "nat option"

datatype event = Accepted conn | AcceptFailed error | Spawned conn | Removed string

text \<open>The \<open>for\<close> loop: it ends at the first failing \<open>Accept\<close>, and only there.\<close>

partial_function (option) accepting ::
  "(nat \<Rightarrow> error + conn) \<Rightarrow> nat \<Rightarrow> event list \<Rightarrow> event list option" where
  "accepting acc k tr =
     (case acc k of
        Inl err \<Rightarrow> Some (tr @ [AcceptFailed err])
      | Inr c \<Rightarrow> accepting acc (Suc k) (tr @ [Accepted c, Spawned c]))"

declare accepting.simps [code]

text \<open>
  \<open>ForwardX11Connections\<close>: the deferred \<open>os.Remove\<close> runs when the function returns and
  when the type assertion panics. \<open>None\<close> is the engine that never stops.
\<close>

definition ForwardX11Connections :: "session \<Rightarrow> string \<Rightarrow> (unit exec \<times> event list) option" where
  "ForwardX11Connections s xauth =
     (case ContextConn s of
        None \<Rightarrow> Some (Panics InterfaceConversion, [Removed xauth])
      | Some sshConn \<Rightarrow>
          (case accepting (Accept s) 0 [] of
             None \<Rightarrow> None
           | Some tr \<Rightarrow> Some (Returns (), tr @ [Removed xauth])))"

text \<open>The actions of the first \<open>k\<close> calls of \<open>Accept\<close> when each gives a connection.\<close>

definition served :: "(nat \<Rightarrow> error + conn) \<Rightarrow> nat \<Rightarrow> event list" where
  "served acc k =
     concat (map (\<lambda>j. case acc j of Inl _ \<Rightarrow> [] | Inr c \<Rightarrow> [Accepted c, Spawned c]) [0..<k])"

section \<open>Sample inputs\<close>

text \<open>
  A little-endian host named \<open>h\<close> where every bind and every write succeeds, a request
  with a 16-byte cookie, and three requests whose field lengths do not fit 16 bits.
\<close>

definition sample_env :: env where
  "sample_env = \<lparr>Hostname = Inr ''h'', isLittleEndian = True, AF_LOCAL = 1,
     CreateTemp = Inr ''/tmp/.Xauthority1'', Listen = (\<lambda>addr. None),
     WriteFile = (\<lambda>name buf. None)\<rparr>"

definition sample_request :: X11 where
  "sample_request = \<lparr>SingleConnection = False, AuthProtocol = ''MIT-MAGIC-COOKIE-1'',
     AuthData = ''00112233445566778899aabbccddeeff'', ScreenNumber = 0\<rparr>"

definition long_name_request :: X11 where
  "long_name_request = sample_request\<lparr>AuthProtocol := replicate 65525 (CHR ''a'')\<rparr>"

definition panic_request :: X11 where
  "panic_request = sample_request\<lparr>AuthProtocol := replicate 65523 (CHR ''a''), AuthData := []\<rparr>"

definition long_data_request :: X11 where
  "long_data_request = sample_request\<lparr>AuthData := replicate 131072 (CHR ''0'')\<rparr>"

definition sample_world :: world where
  "sample_world = \<lparr>files = Map.empty, listeners = {}, logged = []\<rparr>"

definition busy :: error where
  "busy = SyscallError ''bind: address already in use''"

definition no_space :: error where
  "no_space = SyscallError ''write: no space left on device''"


text \<open>
  A listener closed after two connections, and a listener that stays open while its
  first \<open>Accept\<close> fails for want of file descriptors.
\<close>

definition closed_after_two :: session where
  "closed_after_two = \<lparr>Accept = (\<lambda>k. if k < 2 then Inr (7 + k) else Inl ErrClosed),
     ContextConn = Some 0\<rparr>"

definition too_many_files :: session where
  "too_many_files = \<lparr>Accept = (\<lambda>k. Inl (SyscallError ''accept: too many open files'')),
     ContextConn = Some 0\<rparr>"

section \<open>Facts about the parser\<close>

lemma andThen_simps [simp]: "andThen (Panics p) f = Panics p" "andThen (Returns v) f = f v"
  by (simp_all add: andThen_def)

lemma BigEndian_Uint32_ok: "4 \<le> length b \<Longrightarrow> BigEndian_Uint32 b = Returns (be_uint32 b)"
  by (simp add: BigEndian_Uint32_def index_def)

lemma parseUint32_eq:
  "parseUint32 b = (if length b < 4 then Returns (0, [], False)
                    else Returns (be_uint32 b, drop 4 b, True))"
  by (simp add: parseUint32_def BigEndian_Uint32_ok slice_from_def slice_def)

lemma parseBool_eq:
  "parseBool b = (case b of [] \<Rightarrow> Returns (False, [], False) | x # r \<Rightarrow> Returns (x = 1, r, True))"
  by (simp add: parseBool_def index_def slice_from_def slice_def split: list.splits)

lemma one_le_word: "1 \<le> (w :: 'a::len word) \<longleftrightarrow> w \<noteq> 0"
  by (simp add: not_less [symmetric])

lemma byte_not_one: "(b :: byte) \<noteq> 1 \<longleftrightarrow> b = 0 \<or> 2 \<le> b"
  by unat_arith

lemma parseString_eq:
  assumes "length b < 2 ^ 32"
  shows "parseString b =
     (if length b < 4 then Returns ([], [], False)
      else if unat (be_uint32 b) < 2 ^ 32 - 4
        then (if length b < 4 + unat (be_uint32 b) then Returns ([], [], False)
              else Returns (string_of_bytes (take (unat (be_uint32 b)) (drop 4 b)),
                            drop (4 + unat (be_uint32 b)) b, True))
        else Panics SliceBoundsOutOfRange)"
proof (cases "length b < 4")
  case True
  then show ?thesis by (simp add: parseString_def)
next
  case False
  define L where "L = be_uint32 b"
  have len: "unat (of_nat (length b) :: 32 word) = length b"
    using assms by (simp add: unat_of_nat)
  show ?thesis
  proof (cases "unat L < 2 ^ 32 - 4")
    case True
    then have h: "unat (4 + L) = 4 + unat L"
      by (simp add: unat_word_ariths)
    show ?thesis
      using False True h len
      by (simp add: parseString_def BigEndian_Uint32_ok L_def [symmetric] word_less_nat_alt
          slice_def slice_from_def)
  next
    case wrap: False
    have "unat L < 2 ^ 32" using unsigned_less [of L, where ?'a = nat] by simp
    with wrap have h: "unat (4 + L) = 4 + unat L - 2 ^ 32"
      by (simp add: unat_word_ariths mod_if)
    with wrap \<open>unat L < 2 ^ 32\<close> have small: "unat (4 + L) < 4" by simp
    show ?thesis
      using False wrap small len
      by (simp add: parseString_def BigEndian_Uint32_ok L_def [symmetric] word_less_nat_alt
          slice_def slice_from_def)
  qed
qed

lemma parseUint32_total: "parseUint32 b \<noteq> Panics p"
  by (simp add: parseUint32_eq)

lemma parseBool_total: "parseBool b \<noteq> Panics p"
  by (cases b) (simp_all add: parseBool_eq)

text \<open>
  Claim C2. The primitive parsers are meant to fail, never to panic, on every buffer.
  \<open>parseUint32\<close> and \<open>parseBool\<close> do (\<open>parseUint32_total\<close>, \<open>parseBool_total\<close>), and so
  does \<open>parseString\<close> while the declared length is below \<open>2^32 - 4\<close> (\<open>parseString_eq\<close>).
  For the four largest declared lengths the sum \<open>4+length\<close> wraps to a value below 4,
  the length check passes, and the slice expression \<open>in[4 : 4+length]\<close> panics.
\<close>

theorem parseString_wrapped_length_panics:
  assumes "4 \<le> length b" and "length b < 2 ^ 32" and "2 ^ 32 - 4 \<le> unat (be_uint32 b)"
  shows "parseString b = Panics SliceBoundsOutOfRange"
  using assms by (simp add: parseString_eq)

text \<open>The buffer \<open>ff ff ff ff\<close>: the declared length is \<open>2^32 - 1\<close>.\<close>

theorem parseString_wrapped_length_panics_witness:
  "4 \<le> length [255, 255, 255, 255 :: byte] \<and> length [255, 255, 255, 255 :: byte] < 2 ^ 32
   \<and> 2 ^ 32 - 4 \<le> unat (be_uint32 [255, 255, 255, 255])
   \<and> parseString [255, 255, 255, 255] = Panics SliceBoundsOutOfRange"
  using parseString_wrapped_length_panics [of "[255, 255, 255, 255]"]
  by (simp add: be_uint32_def)

text \<open>
  Claim C7. \<open>parseBool\<close> fails on the empty buffer; on a buffer of one byte or more it
  succeeds, gives the bytes after the first, and its value is true exactly when the
  first byte is 1: the byte 0 and every byte from 2 on give false.
\<close>

theorem parseBool_true_iff_one:
  "parseBool [] = Returns (False, [], False)
   \<and> parseBool (b # rest) = Returns (b = 1, rest, True)
   \<and> (b = 0 \<or> 2 \<le> b \<longrightarrow> parseBool (b # rest) = Returns (False, rest, True))"
  using byte_not_one [of b] by (auto simp add: parseBool_eq)

text \<open>The first bytes 1, 2 and 0.\<close>

theorem parseBool_true_iff_one_witness:
  "parseBool [1, 7] = Returns (True, [7], True) \<and> parseBool [2, 7] = Returns (False, [7], True)
   \<and> parseBool [0] = Returns (False, [], True) \<and> (2 :: byte) \<le> 2"
  using parseBool_true_iff_one [of 1 "[7]"] parseBool_true_iff_one [of 2 "[7]"]
    parseBool_true_iff_one [of 0 "[]"]
  by simp

text \<open>
  Claim C8. \<open>parseWinchRequest\<close> succeeds exactly when the buffer holds both 4-byte
  fields and both decode to at least 1, and then returns the decoded width and height;
  a width or a height of 0 fails like a short buffer, with the zero \<open>Window\<close>.
\<close>

theorem parseWinchRequest_rejects_zero:
  "parseWinchRequest s =
     (if 8 \<le> length s \<and> 1 \<le> be_uint32 s \<and> 1 \<le> be_uint32 (drop 4 s)
      then Returns (\<lparr>Width = uint (be_uint32 s), Height = uint (be_uint32 (drop 4 s))\<rparr>, True)
      else Returns (zero_Window, False))"
  by (auto simp add: parseWinchRequest_def parseUint32_eq Let_def not_less one_le_word)

text \<open>An 80 by 24 window, a zero height, a zero width and a buffer one byte short.\<close>

theorem parseWinchRequest_rejects_zero_witness:
  "parseWinchRequest [0, 0, 0, 80, 0, 0, 0, 24] = Returns (\<lparr>Width = 80, Height = 24\<rparr>, True)
   \<and> parseWinchRequest [0, 0, 0, 80, 0, 0, 0, 0] = Returns (zero_Window, False)
   \<and> parseWinchRequest [0, 0, 0, 0, 0, 0, 0, 24] = Returns (zero_Window, False)
   \<and> parseWinchRequest [0, 0, 0, 80, 0, 0, 24] = Returns (zero_Window, False)"
  using parseWinchRequest_rejects_zero [of "[0, 0, 0, 80, 0, 0, 0, 24]"]
    parseWinchRequest_rejects_zero [of "[0, 0, 0, 80, 0, 0, 0, 0]"]
    parseWinchRequest_rejects_zero [of "[0, 0, 0, 0, 0, 0, 0, 24]"]
    parseWinchRequest_rejects_zero [of "[0, 0, 0, 80, 0, 0, 24]"]
  by (simp add: be_uint32_def)

section \<open>Facts about the cookie builder\<close>

text \<open>Strings and byte slices convert into each other without loss.\<close>

lemma string_of_bytes_inverse [simp]: "string_of_bytes (bytes_of_string s) = s"
  by (simp add: string_of_bytes_def bytes_of_string_def unat_of_nat map_idI)

lemma byte_of_nat_unat_mod: "(of_nat (unat (x :: byte) mod 256) :: byte) = x"
proof -
  have "unat x < 256" using unsigned_less [of x, where ?'a = nat] by simp
  then show ?thesis by simp
qed

lemma bytes_of_string_inverse [simp]: "bytes_of_string (string_of_bytes b) = b"
  by (simp add: string_of_bytes_def bytes_of_string_def o_def byte_of_nat_unat_mod)

lemma length_bytes_of_string [simp]: "length (bytes_of_string s) = length s"
  by (simp add: bytes_of_string_def)

lemma length_be16 [simp]: "length (be16 v) = 2"
  by (simp add: be16_def)

lemma length_le16 [simp]: "length (le16 v) = 2"
  by (simp add: le16_def)

lemma be_uint16_be16 [simp]: "be_uint16 (be16 v @ r) = v"
  unfolding be_uint16_def be16_def
  by (rule bit_word_eqI) (auto simp add: bit_simps)

lemma le_uint16_le16 [simp]: "le_uint16 (le16 v @ r) = v"
  unfolding le_uint16_def le16_def
  by (rule bit_word_eqI) (auto simp add: bit_simps)

lemma unat16_eq: "w = of_nat x \<Longrightarrow> x < 65536 \<Longrightarrow> unat (w :: 16 word) = x"
  by (simp add: unat_of_nat)

lemma readField_be16:
  "length x < 65536 \<Longrightarrow>
   readField (be16 (of_nat (length x)) @ x @ r) = Some (of_nat (length x), x, r)"
  by (simp add: readField_def Let_def unat16_eq)

text \<open>
  Writing at the end of the part of the buffer filled so far, while the rest is still
  zero and long enough.
\<close>

lemma BigEndian_PutUint16_fresh:
  "pos = length pre \<Longrightarrow> k = Suc (Suc j) \<Longrightarrow>
   BigEndian_PutUint16 (pre @ replicate k 0) pos v = Returns ((pre @ be16 v) @ replicate j 0)"
  by (simp add: BigEndian_PutUint16_def slice_from_def slice_def index_def be16_def list_update_append)

lemma LittleEndian_PutUint16_fresh:
  "pos = length pre \<Longrightarrow> k = Suc (Suc j) \<Longrightarrow>
   LittleEndian_PutUint16 (pre @ replicate k 0) pos v = Returns ((pre @ le16 v) @ replicate j 0)"
  by (simp add: LittleEndian_PutUint16_def slice_from_def slice_def index_def le16_def list_update_append)

lemma copy_fresh:
  "pos = length pre \<Longrightarrow> k = length src + j \<Longrightarrow>
   copy (pre @ replicate k 0) pos src = Returns ((pre @ src) @ replicate j 0)"
  by (simp add: copy_def slice_from_def slice_def min_def)

text \<open>
  The layout of the record when the four lengths and the ten header bytes fit 16 bits:
  no conversion and no addition wraps, and every write lands in fresh buffer space.
\<close>

lemma prepareXAuthority_layout:
  assumes dec: "DecodeString (AuthData request) = Inr data"
    and host: "Hostname e = Inr hostname"
    and fit: "length hostname + length (Itoa seat) + length (AuthProtocol request) + length data + 10 < 65536"
  shows "prepareXAuthority e request seat =
     Returns (Inr ((if isLittleEndian e then le16 (AF_LOCAL e) else be16 (AF_LOCAL e))
        @ be16 (of_nat (length hostname)) @ bytes_of_string hostname
        @ be16 (of_nat (length (Itoa seat))) @ bytes_of_string (Itoa seat)
        @ be16 (of_nat (length (AuthProtocol request))) @ bytes_of_string (AuthProtocol request)
        @ be16 (of_nat (length data)) @ data))"
proof -
  define a where "a = length hostname"
  define n where "n = length (Itoa seat)"
  define m where "m = length (AuthProtocol request)"
  define d where "d = length data"
  define H where "H = bytes_of_string hostname"
  define N where "N = bytes_of_string (Itoa seat)"
  define M where "M = bytes_of_string (AuthProtocol request)"
  define B1 where "B1 = (if isLittleEndian e then le16 (AF_LOCAL e) else be16 (AF_LOCAL e))"
  define B2 where "B2 = B1 @ be16 (of_nat a)"
  define B3 where "B3 = B2 @ H"
  define B4 where "B4 = B3 @ be16 (of_nat n)"
  define B5 where "B5 = B4 @ N"
  define B6 where "B6 = B5 @ be16 (of_nat m)"
  define B7 where "B7 = B6 @ M"
  define B8 where "B8 = B7 @ be16 (of_nat d)"
  define B9 where "B9 = B8 @ data"
  have lH: "length H = a" and lN: "length N = n" and lM: "length M = m"
    by (simp_all add: H_def N_def M_def a_def n_def m_def)
  have l1: "length B1 = 2" by (simp add: B1_def)
  have l2: "length B2 = 4" by (simp add: B2_def l1)
  have l3: "length B3 = 4 + a" by (simp add: B3_def l2 lH)
  have l4: "length B4 = 6 + a" by (simp add: B4_def l3)
  have l5: "length B5 = 6 + a + n" by (simp add: B5_def l4 lN)
  have l6: "length B6 = 8 + a + n" by (simp add: B6_def l5)
  have l7: "length B7 = 8 + a + n + m" by (simp add: B7_def l6 lM)
  have l8: "length B8 = 10 + a + n + m" by (simp add: B8_def l7)
  have fit': "a + n + m + d + 10 < 65536" using fit by (simp add: a_def n_def m_def d_def)
  have size: "unat (of_nat a + of_nat n + of_nat m + of_nat d + 10 :: 16 word) = a + n + m + d + 10"
    by (rule unat16_eq) (use fit' in \<open>simp_all add: algebra_simps\<close>)
  have p0: "unat (0 :: 16 word) = 0" by simp
  have p1: "unat (0 + 2 :: 16 word) = 2" by simp
  have p2: "unat (0 + 2 + 2 :: 16 word) = 4" by simp
  have p3: "unat (0 + 2 + 2 + of_nat a :: 16 word) = 4 + a"
    by (rule unat16_eq) (use fit' in \<open>simp_all add: algebra_simps\<close>)
  have p4: "unat (0 + 2 + 2 + of_nat a + 2 :: 16 word) = 6 + a"
    by (rule unat16_eq) (use fit' in \<open>simp_all add: algebra_simps\<close>)
  have p5: "unat (0 + 2 + 2 + of_nat a + 2 + of_nat n :: 16 word) = 6 + a + n"
    by (rule unat16_eq) (use fit' in \<open>simp_all add: algebra_simps\<close>)
  have p6: "unat (0 + 2 + 2 + of_nat a + 2 + of_nat n + 2 :: 16 word) = 8 + a + n"
    by (rule unat16_eq) (use fit' in \<open>simp_all add: algebra_simps\<close>)
  have p7: "unat (0 + 2 + 2 + of_nat a + 2 + of_nat n + 2 + of_nat m :: 16 word) = 8 + a + n + m"
    by (rule unat16_eq) (use fit' in \<open>simp_all add: algebra_simps\<close>)
  have p8: "unat (0 + 2 + 2 + of_nat a + 2 + of_nat n + 2 + of_nat m + 2 :: 16 word) = 10 + a + n + m"
    by (rule unat16_eq) (use fit' in \<open>simp_all add: algebra_simps\<close>)
  have s1: "(if isLittleEndian e then LittleEndian_PutUint16 (replicate (a + n + m + d + 10) 0) 0 (AF_LOCAL e)
             else BigEndian_PutUint16 (replicate (a + n + m + d + 10) 0) 0 (AF_LOCAL e))
            = Returns (B1 @ replicate (a + n + m + d + 8) 0)"
    using LittleEndian_PutUint16_fresh [of 0 "[]" "a + n + m + d + 10" "a + n + m + d + 8" "AF_LOCAL e"]
      BigEndian_PutUint16_fresh [of 0 "[]" "a + n + m + d + 10" "a + n + m + d + 8" "AF_LOCAL e"]
    by (simp add: B1_def)
  have s2: "BigEndian_PutUint16 (B1 @ replicate (a + n + m + d + 8) 0) 2 (of_nat a)
            = Returns (B2 @ replicate (a + n + m + d + 6) 0)"
    unfolding B2_def by (rule BigEndian_PutUint16_fresh) (simp_all add: l1)
  have s3: "copy (B2 @ replicate (a + n + m + d + 6) 0) 4 H
            = Returns (B3 @ replicate (n + m + d + 6) 0)"
    unfolding B3_def by (rule copy_fresh) (simp_all add: l2 lH)
  have s4: "BigEndian_PutUint16 (B3 @ replicate (n + m + d + 6) 0) (4 + a) (of_nat n)
            = Returns (B4 @ replicate (n + m + d + 4) 0)"
    unfolding B4_def by (rule BigEndian_PutUint16_fresh) (simp_all add: l3)
  have s5: "copy (B4 @ replicate (n + m + d + 4) 0) (6 + a) N
            = Returns (B5 @ replicate (m + d + 4) 0)"
    unfolding B5_def by (rule copy_fresh) (simp_all add: l4 lN)
  have s6: "BigEndian_PutUint16 (B5 @ replicate (m + d + 4) 0) (6 + a + n) (of_nat m)
            = Returns (B6 @ replicate (m + d + 2) 0)"
    unfolding B6_def by (rule BigEndian_PutUint16_fresh) (simp_all add: l5)
  have s7: "copy (B6 @ replicate (m + d + 2) 0) (8 + a + n) M
            = Returns (B7 @ replicate (d + 2) 0)"
    unfolding B7_def by (rule copy_fresh) (simp_all add: l6 lM)
  have s8: "BigEndian_PutUint16 (B7 @ replicate (d + 2) 0) (8 + a + n + m) (of_nat d)
            = Returns (B8 @ replicate d 0)"
    unfolding B8_def by (rule BigEndian_PutUint16_fresh) (simp_all add: l7)
  have s9: "copy (B8 @ replicate d 0) (10 + a + n + m) data = Returns B9"
    using copy_fresh [of "10 + a + n + m" B8 d data 0] by (simp add: l8 d_def B9_def)
  have "prepareXAuthority e request seat = Returns (Inr B9)"
    unfolding prepareXAuthority_def Let_def dec host sum.case
      a_def [symmetric] n_def [symmetric] m_def [symmetric] d_def [symmetric]
      H_def [symmetric] N_def [symmetric] M_def [symmetric]
      size p0 p1 p2 p3 p4 p5 p6 p7 p8
    by (simp only: s1 s2 s3 s4 s5 s6 s7 s8 s9 andThen_simps)
  then show ?thesis
    by (simp add: B1_def B2_def B3_def B4_def B5_def B6_def B7_def B8_def B9_def
        H_def N_def M_def a_def n_def m_def d_def)
qed


lemma readXAuthority_layout:
  assumes "length h < 65536" "length n < 65536" "length m < 65536" "length d < 65536"
    and "fam = (if little then le16 f else be16 f)"
  shows "readXAuthority little
           (fam @ be16 (of_nat (length h)) @ bytes_of_string h
                @ be16 (of_nat (length n)) @ bytes_of_string n
                @ be16 (of_nat (length m)) @ bytes_of_string m
                @ be16 (of_nat (length d)) @ d)
         = Some (\<lparr>Family = f, AddrLen = of_nat (length h), Addr = h,
                   NumberLen = of_nat (length n), Number = n,
                   NameLen = of_nat (length m), Name = m,
                   DataLen = of_nat (length d), Data = string_of_bytes d\<rparr>, [])"
proof -
  have f1: "readField (be16 (of_nat (length h)) @ bytes_of_string h @ r)
            = Some (of_nat (length h), bytes_of_string h, r)" for r
    using readField_be16 [of "bytes_of_string h" r] assms(1) by simp
  have f2: "readField (be16 (of_nat (length n)) @ bytes_of_string n @ r)
            = Some (of_nat (length n), bytes_of_string n, r)" for r
    using readField_be16 [of "bytes_of_string n" r] assms(2) by simp
  have f3: "readField (be16 (of_nat (length m)) @ bytes_of_string m @ r)
            = Some (of_nat (length m), bytes_of_string m, r)" for r
    using readField_be16 [of "bytes_of_string m" r] assms(3) by simp
  have f4: "readField (be16 (of_nat (length d)) @ d)
            = Some (of_nat (length d), d, [])"
    using readField_be16 [of d "[]"] assms(4) by simp
  have lf: "length fam = 2" by (simp add: assms(5))
  have fam: "(if little then le_uint16 (fam @ r) else be_uint16 (fam @ r)) = f" for r
    by (simp add: assms(5))
  show ?thesis
    unfolding readXAuthority_def
    by (simp add: lf f1 f2 f3 f4 fam)
qed

text \<open>The sample inputs, evaluated.\<close>

lemma DecodeString_sample:
  "DecodeString ''00112233445566778899aabbccddeeff''
   = Inr [0, 17, 34, 51, 68, 85, 102, 119, 136, 153, 170, 187, 204, 221, 238, 255]"
  by code_simp

lemma fromHexChar_zero: "fromHexChar (CHR ''0'') = Some 0"
  by code_simp

lemma DecodeString_zeros:
  "DecodeString (replicate (2 * k) (CHR ''0'')) = Inr (replicate k 0)"
  by (induction k) (simp_all add: fromHexChar_zero)

lemma Itoa_10: "Itoa 10 = ''10''"
  by code_simp


lemma bytes_of_string_samples:
  "bytes_of_string ''h'' = [104]" "bytes_of_string ''10'' = [49, 48]"
  "bytes_of_string ''46'' = [52, 54]"
  "bytes_of_string ''MIT-MAGIC-COOKIE-1''
   = [77, 73, 84, 45, 77, 65, 71, 73, 67, 45, 67, 79, 79, 75, 73, 69, 45, 49]"
  by code_simp+

lemma replicate_18:
  "replicate 18 (0 :: byte) = [0, 0, 0, 0, 0, 0, 0, 0, 0, 0, 0, 0, 0, 0, 0, 0, 0, 0]"
  by code_simp

lemma replicate_31:
  "replicate 31 (0 :: byte) = [0, 0, 0, 0, 0, 0, 0, 0, 0, 0, 0, 0, 0, 0, 0, 0, 0, 0, 0, 0,
     0, 0, 0, 0, 0, 0, 0, 0, 0, 0, 0]"
  by code_simp

lemmas buffer_ops = LittleEndian_PutUint16_def BigEndian_PutUint16_def copy_def
  slice_from_def slice_def index_def

lemma long_name_example:
  "prepareXAuthority sample_env long_name_request 10
   = Returns (Inr [0, 16, 0, 17, 34, 51, 68, 85, 102, 119, 136, 153, 170, 187, 204, 221, 238, 255])"
  apply (simp add: prepareXAuthority_def sample_env_def long_name_request_def sample_request_def
      DecodeString_sample Itoa_10 Let_def replicate_18 bytes_of_string_samples
      del: DecodeString.simps)
  apply (simp add: buffer_ops)
  done

lemma panic_example:
  "prepareXAuthority sample_env panic_request 10 = Panics IndexOutOfRange"
  apply (simp add: prepareXAuthority_def sample_env_def panic_request_def sample_request_def
      Itoa_10 Let_def)
  apply (simp add: buffer_ops)
  done

lemma long_data_example:
  "prepareXAuthority sample_env long_data_request 10
   = Returns (Inr ([1, 0, 0, 1, 104, 0, 2, 49, 48, 0, 18]
        @ [77, 73, 84, 45, 77, 65, 71, 73, 67, 45, 67, 79, 79, 75, 73, 69, 45, 49] @ [0, 0]))"
proof -
  have dec: "DecodeString (AuthData long_data_request) = Inr (replicate 65536 0)"
    using DecodeString_zeros [of 65536] by (simp add: long_data_request_def)
  show ?thesis
    unfolding prepareXAuthority_def dec
    apply (simp add: sample_env_def long_data_request_def sample_request_def
      Itoa_10 Let_def replicate_31 bytes_of_string_samples)
    apply (simp add: buffer_ops)
    done
qed

text \<open>
  No write changes the length of the buffer, and no step after the host name is known
  returns an error: the builder returns a buffer of the wrapped size or panics.
\<close>

lemma PutUint16_length:
  "BigEndian_PutUint16 buf pos v = Returns b \<Longrightarrow> length b = length buf"
  "LittleEndian_PutUint16 buf pos v = Returns b \<Longrightarrow> length b = length buf"
  by (auto simp add: BigEndian_PutUint16_def LittleEndian_PutUint16_def slice_from_def slice_def
      index_def split: if_splits)

lemma copy_length: "copy buf pos src = Returns b \<Longrightarrow> length b = length buf"
  by (auto simp add: copy_def slice_from_def slice_def Let_def min_def split: if_splits)

lemma prepareXAuthority_never_fails_on_length:
  assumes dec: "DecodeString (AuthData request) = Inr data"
    and host: "Hostname e = Inr hostname"
  shows "(\<exists>p. prepareXAuthority e request seat = Panics p)
       \<or> (\<exists>buf. prepareXAuthority e request seat = Returns (Inr buf)
            \<and> length buf = (length hostname + length (Itoa seat)
                 + length (AuthProtocol request) + length data + 10) mod 65536)"
proof -
  have size: "unat (of_nat (length hostname) + of_nat (length (Itoa seat))
               + of_nat (length (AuthProtocol request)) + of_nat (length data) + 10 :: 16 word)
             = (length hostname + length (Itoa seat)
                 + length (AuthProtocol request) + length data + 10) mod 65536"
    using unat_of_nat [where ?'a = 16, of "length hostname + length (Itoa seat)
                 + length (AuthProtocol request) + length data + 10"]
    by simp
  define K where "K = (length hostname + length (Itoa seat)
                 + length (AuthProtocol request) + length data + 10) mod 65536"
  define Q :: "(error + byte list) exec \<Rightarrow> bool" where
    "Q r \<longleftrightarrow> (\<exists>p. r = Panics p) \<or> (\<exists>buf. r = Returns (Inr buf) \<and> length buf = K)" for r
  have step: "Q (andThen m f)"
    if "\<And>b. m = Returns b \<Longrightarrow> length b = K" and "\<And>b. length b = K \<Longrightarrow> Q (f b)" for m f
    using that by (cases m) (auto simp add: Q_def)
  have final: "Q (Returns (Inr b))" if "length b = K" for b
    using that by (simp add: Q_def)
  have put: "BigEndian_PutUint16 buf pos v = Returns b \<Longrightarrow> length buf = K \<Longrightarrow> length b = K"
    for buf pos v b
    by (drule PutUint16_length) simp
  have cp: "copy buf pos src = Returns b \<Longrightarrow> length buf = K \<Longrightarrow> length b = K"
    for buf pos src b
    by (drule copy_length) simp
  have first: "(if c then LittleEndian_PutUint16 buf pos v else BigEndian_PutUint16 buf pos v)
      = Returns b \<Longrightarrow> length buf = K \<Longrightarrow> length b = K" for c buf pos v b
    by (cases c) (auto dest: PutUint16_length)
  have "Q (prepareXAuthority e request seat)"
    unfolding prepareXAuthority_def dec host sum.case Let_def size K_def [symmetric]
    apply (rule step, erule first, simp)
    apply (rule step, erule put, assumption)
    apply (rule step, erule cp, assumption)
    apply (rule step, erule put, assumption)
    apply (rule step, erule cp, assumption)
    apply (rule step, erule put, assumption)
    apply (rule step, erule cp, assumption)
    apply (rule step, erule put, assumption)
    apply (rule step, erule cp, assumption)
    apply (erule final)
    done
  then show ?thesis
    by (simp add: Q_def K_def)
qed










text \<open>Where a write position wraps, no record returned has room for the four fields.\<close>

lemma prepareXAuthority_wrapped_record_short:
  assumes dec: "DecodeString (AuthData request) = Inr data"
    and host: "Hostname e = Inr hostname"
    and ret: "prepareXAuthority e request seat = Returns (Inr buf)"
    and wrap: "65536 \<le> length hostname mod 65536 + length (Itoa seat) mod 65536
        + length (AuthProtocol request) mod 65536 + 10"
  shows "length buf < length hostname mod 65536 + length (Itoa seat) mod 65536
        + length (AuthProtocol request) mod 65536 + length data mod 65536 + 10"
proof -
  from prepareXAuthority_never_fails_on_length [OF dec host, of seat] ret
  have "length buf = (length hostname + length (Itoa seat)
                 + length (AuthProtocol request) + length data + 10) mod 65536"
    by simp
  then have "length buf < 65536" by simp
  with wrap show ?thesis by simp
qed



text \<open>The record of lengths that fit reads back as the four values it was built from.\<close>

lemma prepareXAuthority_reads_back:
  assumes "DecodeString (AuthData request) = Inr data"
    and "Hostname e = Inr hostname"
    and "length hostname + length (Itoa seat) + length (AuthProtocol request) + length data + 10
         < 65536"
  shows "\<exists>buf x. prepareXAuthority e request seat = Returns (Inr buf)
           \<and> readXAuthority (isLittleEndian e) buf = Some (x, [])
           \<and> Addr x = hostname \<and> Number x = Itoa seat
           \<and> Name x = AuthProtocol request \<and> bytes_of_string (Data x) = data"
  using prepareXAuthority_layout [OF assms]
    readXAuthority_layout [of hostname "Itoa seat" "AuthProtocol request" data _
      "isLittleEndian e" "AF_LOCAL e", OF _ _ _ _ refl] assms(3)
  by simp







text \<open>
  Claim C10. Once the hex string is decoded and the host name known,
  \<open>prepareXAuthority\<close> never returns an error: it panics or returns a buffer whose
  length is the sum of the four lengths and 10 modulo \<open>2^16\<close>. With 65536 bytes of data
  the record has the data length 0 and no data; with a protocol name of 65525 bytes it
  is the data length and the data alone; with a protocol name of 65523 bytes the buffer
  is empty and the first write panics.
\<close>

theorem prepareXAuthority_uint16_wrap:
  "(\<forall>e request seat data hostname.
      DecodeString (AuthData request) = Inr data \<longrightarrow> Hostname e = Inr hostname \<longrightarrow>
        (\<exists>p. prepareXAuthority e request seat = Panics p)
      \<or> (\<exists>buf. prepareXAuthority e request seat = Returns (Inr buf)
            \<and> length buf = (length hostname + length (Itoa seat)
                 + length (AuthProtocol request) + length data + 10) mod 65536))
   \<and> (DecodeString (AuthData long_data_request) = Inr (replicate 65536 0)
      \<and> prepareXAuthority sample_env long_data_request 10
        = Returns (Inr ([1, 0] @ [0, 1] @ [104] @ [0, 2] @ [49, 48] @ [0, 18]
            @ [77, 73, 84, 45, 77, 65, 71, 73, 67, 45, 67, 79, 79, 75, 73, 69, 45, 49] @ [0, 0])))
   \<and> (length (AuthProtocol long_name_request) = 65525
      \<and> prepareXAuthority sample_env long_name_request 10
        = Returns (Inr ([0, 16]
            @ [0, 17, 34, 51, 68, 85, 102, 119, 136, 153, 170, 187, 204, 221, 238, 255])))
   \<and> (length (AuthProtocol panic_request) = 65523
      \<and> prepareXAuthority sample_env panic_request 10 = Panics IndexOutOfRange)"
proof (intro conjI allI impI)
  show "DecodeString (AuthData long_data_request) = Inr (replicate 65536 0)"
    using DecodeString_zeros [of 65536] by (simp add: long_data_request_def)
  show "length (AuthProtocol long_name_request) = 65525"
    by (simp add: long_name_request_def)
  show "length (AuthProtocol panic_request) = 65523"
    by (simp add: panic_request_def)
qed (simp_all add: prepareXAuthority_never_fails_on_length long_data_example long_name_example
    panic_example)

text \<open>
  The protocol name of 65525 bytes: the four lengths and 10 sum to 65554, and the buffer
  has 18 bytes.
\<close>

theorem prepareXAuthority_uint16_wrap_witness:
  "DecodeString (AuthData long_name_request)
     = Inr [0, 17, 34, 51, 68, 85, 102, 119, 136, 153, 170, 187, 204, 221, 238, 255]
   \<and> Hostname sample_env = Inr ''h''
   \<and> (\<exists>buf. prepareXAuthority sample_env long_name_request 10 = Returns (Inr buf)
          \<and> length buf = 18)"
proof -
  have dec: "DecodeString (AuthData long_name_request)
     = Inr [0, 17, 34, 51, 68, 85, 102, 119, 136, 153, 170, 187, 204, 221, 238, 255]"
    by (simp add: long_name_request_def sample_request_def DecodeString_sample
        del: DecodeString.simps)
  have host: "Hostname sample_env = Inr ''h''"
    by (simp add: sample_env_def)
  have "(\<exists>p. prepareXAuthority sample_env long_name_request 10 = Panics p)
      \<or> (\<exists>buf. prepareXAuthority sample_env long_name_request 10 = Returns (Inr buf)
            \<and> length buf = (length ''h'' + length (Itoa 10)
                 + length (AuthProtocol long_name_request)
                 + length [0, 17, 34, 51, 68, 85, 102, 119, 136, 153, 170, 187, 204, 221,
                     238, 255 :: byte] + 10) mod 65536)"
    using prepareXAuthority_uint16_wrap dec host by blast
  moreover have "prepareXAuthority sample_env long_name_request 10
        = Returns (Inr ([0, 16]
            @ [0, 17, 34, 51, 68, 85, 102, 119, 136, 153, 170, 187, 204, 221, 238, 255]))"
    using prepareXAuthority_uint16_wrap by blast
  ultimately show ?thesis
    using dec host by simp
qed

section \<open>Facts about the display allocator\<close>

lemma candidate_eq: "candidate i = ''localhost:'' @ Itoa (6000 + 10 + int i)"
  by (simp add: candidate_def JoinHostPort_def X11DisplayHost_def X11DisplayBasePort_def
      X11DisplayOffset_def)

text \<open>A failed bind is logged and the next candidate tried: files and listeners stay.\<close>

lemma attempts_skip:
  assumes "k \<le> 50" and "i \<le> k"
    and "\<forall>j. i \<le> j \<and> j < k \<longrightarrow> Listen e (candidate j) \<noteq> None"
  shows "\<exists>w'. attempts e request xauthFile err i w = attempts e request xauthFile err k w'
           \<and> files w' = files w \<and> listeners w' = listeners w
           \<and> logged w' = logged w @ map (\<lambda>j. the (Listen e (candidate j))) [i..<k]"
  using assms
proof (induction k)
  case 0
  then show ?case by (intro exI [of _ w]) simp
next
  case (Suc k)
  show ?case
  proof (cases "i = Suc k")
    case True
    then show ?thesis by (intro exI [of _ w]) simp
  next
    case False
    with Suc.prems have ik: "i \<le> k" and k50: "k < 50" by simp_all
    from Suc.prems have "\<forall>j. i \<le> j \<and> j < k \<longrightarrow> Listen e (candidate j) \<noteq> None" by simp
    with Suc.IH ik k50 obtain w' where w':
      "attempts e request xauthFile err i w = attempts e request xauthFile err k w'"
      "files w' = files w" "listeners w' = listeners w"
      "logged w' = logged w @ map (\<lambda>j. the (Listen e (candidate j))) [i..<k]"
      by auto
    from Suc.prems ik obtain err1 where err1: "Listen e (candidate k) = Some err1"
      by auto
    have "attempts e request xauthFile err k w'
          = attempts e request xauthFile err (Suc k) (Println err1 w')"
      using k50 err1 by (subst attempts.simps) simp
    with w' err1 ik show ?thesis
      by (intro exI [of _ "Println err1 w'"]) (simp add: Println_def)
  qed
qed

lemma attempts_exhausted:
  "attempts e request xauthFile err 50 w = (Remove xauthFile w, Returns (None, None, err))"
  by (subst attempts.simps) simp

lemma attempts_bound:
  assumes "i < 50" and "Listen e (candidate i) = None"
  shows "attempts e request xauthFile err i w =
     (let w = w\<lparr>listeners := insert (candidate i) (listeners w)\<rparr> in
      case prepareXAuthority e request (X11DisplayOffset + int i) of
        Panics p \<Rightarrow> (w, Panics p)
      | Returns (Inl err2) \<Rightarrow>
          (Remove xauthFile (Close (candidate i) w), Returns (None, None, Some err2))
      | Returns (Inr buf) \<Rightarrow>
          (case WriteFile e xauthFile buf of
             Some err2 \<Rightarrow>
               (Remove xauthFile (Close (candidate i) w), Returns (None, None, Some err2))
           | None \<Rightarrow>
               (w\<lparr>files := (files w)(xauthFile \<mapsto> buf)\<rparr>,
                Returns (Some (candidate i), Some xauthFile, None))))"
  using assms by (subst attempts.simps) (simp add: Let_def)

lemma NewX11Forwarder_reaches_first_free:
  assumes create: "CreateTemp e = Inr name"
    and i: "i < 50"
    and busy: "\<forall>j<i. Listen e (candidate j) \<noteq> None"
    and free: "Listen e (candidate i) = None"
  shows "\<exists>w1. NewX11Forwarder e request w = attempts e request name None i w1
           \<and> files w1 = (files w)(name \<mapsto> []) \<and> listeners w1 = listeners w"
proof -
  let ?w = "w\<lparr>files := (files w)(name \<mapsto> [])\<rparr>"
  from busy have "\<forall>j. 0 \<le> j \<and> j < i \<longrightarrow> Listen e (candidate j) \<noteq> None" by simp
  from attempts_skip [OF _ _ this, of request name None ?w] i
  obtain w1 where "attempts e request name None 0 ?w = attempts e request name None i w1"
    "files w1 = files ?w" "listeners w1 = listeners ?w"
    by auto
  then show ?thesis
    using create by (intro exI [of _ w1]) (simp add: NewX11Forwarder_def)
qed

text \<open>
  Every return without a listener leaves neither the temporary file nor a new listener.
\<close>

lemma attempts_failure:
  "attempts e request name err i w = (w', Returns (None, f, err')) \<Longrightarrow>
   files w' name = None \<and> listeners w' \<subseteq> listeners w"
proof (induction e request name err i w rule: attempts.induct)
  case (1 e request xauthFile err i w)
  show ?case
  proof (cases "i < 50")
    case False
    with 1(2) show ?thesis
      by (subst (asm) attempts.simps) (auto simp add: Remove_def)
  next
    case True
    show ?thesis
    proof (cases "Listen e (candidate i)")
      case (Some err1)
      with True 1(2) have "attempts e request xauthFile err (Suc i) (Println err1 w)
          = (w', Returns (None, f, err'))"
        by (subst (asm) attempts.simps) simp
      from 1(1) [OF True refl Some this] show ?thesis
        by (simp add: Println_def)
    next
      case None
      with True 1(2) show ?thesis
        by (subst (asm) attempts.simps)
          (auto simp add: Let_def Remove_def Close_def split: exec.splits sum.splits option.splits)
    qed
  qed
qed

lemma NewX11Forwarder_failure:
  assumes "CreateTemp e = Inr name"
    and "NewX11Forwarder e request w = (w', Returns (None, f, err'))"
  shows "files w' name = None \<and> listeners w' \<subseteq> listeners w"
  using assms attempts_failure [of e request name None 0 "w\<lparr>files := (files w)(name \<mapsto> [])\<rparr>" w' f err']
  by (simp add: NewX11Forwarder_def)








text \<open>
  Claim C1. With the temporary file created and all 50 binds failing, the code removes
  the file, as the claim says, but returns a nil error instead of the last bind error:
  the \<open>err\<close> assigned by \<open>net.Listen\<close> is a variable of the loop body, and the one
  returned after the loop still holds the nil of \<open>os.CreateTemp\<close>. The bind errors reach
  the log only.
\<close>

theorem NewX11Forwarder_exhausted_returns_nil:
  assumes "CreateTemp e = Inr name"
    and "\<forall>i<50. Listen e (candidate i) \<noteq> None"
  shows "\<exists>w'. NewX11Forwarder e request w = (w', Returns (None, None, None))
           \<and> files w' name = None \<and> listeners w' = listeners w
           \<and> logged w' = logged w @ map (\<lambda>i. the (Listen e (candidate i))) [0..<50]"
proof -
  let ?w = "w\<lparr>files := (files w)(name \<mapsto> [])\<rparr>"
  from assms(2) have "\<forall>j. 0 \<le> j \<and> j < 50 \<longrightarrow> Listen e (candidate j) \<noteq> None" by simp
  from attempts_skip [OF _ _ this, of request name None ?w]
  obtain w' where w': "attempts e request name None 0 ?w = attempts e request name None 50 w'"
    "files w' = files ?w" "listeners w' = listeners ?w"
    "logged w' = logged ?w @ map (\<lambda>j. the (Listen e (candidate j))) [0..<50]"
    by auto
  show ?thesis
    using w' assms(1)
    by (intro exI [of _ "Remove name w'"])
      (simp add: NewX11Forwarder_def attempts_exhausted Remove_def)
qed

text \<open>Every address in use.\<close>

theorem NewX11Forwarder_exhausted_returns_nil_witness:
  "CreateTemp (sample_env\<lparr>Listen := \<lambda>addr. Some busy\<rparr>) = Inr ''/tmp/.Xauthority1''
   \<and> list_all (\<lambda>i. Listen (sample_env\<lparr>Listen := \<lambda>addr. Some busy\<rparr>) (candidate i) \<noteq> None)
        [0..<50]
   \<and> (\<exists>w'. NewX11Forwarder (sample_env\<lparr>Listen := \<lambda>addr. Some busy\<rparr>) sample_request sample_world
             = (w', Returns (None, None, None))
          \<and> files w' ''/tmp/.Xauthority1'' = None \<and> listeners w' = {}
          \<and> logged w' = replicate 50 busy)"
proof -
  let ?e = "sample_env\<lparr>Listen := \<lambda>addr. Some busy\<rparr>"
  have c: "CreateTemp ?e = Inr ''/tmp/.Xauthority1''" by (simp add: sample_env_def)
  have l: "\<forall>i<50. Listen ?e (candidate i) \<noteq> None" by simp
  have m: "map (\<lambda>i. the (Listen ?e (candidate i))) [0..<50] = replicate 50 busy"
    by (simp add: map_replicate_const)
  have l': "list_all (\<lambda>i. Listen ?e (candidate i) \<noteq> None) [0..<50]"
    using l by (simp add: list_all_iff)
  show ?thesis
    using NewX11Forwarder_exhausted_returns_nil [OF c l, of sample_request sample_world] c l'
    by (simp only: m) (simp add: sample_world_def)
qed

text \<open>An error after the first successful bind undoes the bind and the file.\<close>

lemma NewX11Forwarder_error_after_bind:
  assumes create: "CreateTemp e = Inr name"
    and i: "i < 50"
    and busy: "\<forall>j<i. Listen e (candidate j) \<noteq> None"
    and free: "Listen e (candidate i) = None"
    and fail: "prepareXAuthority e request (X11DisplayOffset + int i) = Returns (Inl err)
       \<or> (\<exists>buf. prepareXAuthority e request (X11DisplayOffset + int i) = Returns (Inr buf)
             \<and> WriteFile e name buf = Some err)"
  shows "\<exists>w'. NewX11Forwarder e request w = (w', Returns (None, None, Some err))
           \<and> files w' name = None \<and> candidate i \<notin> listeners w'
           \<and> listeners w' = listeners w - {candidate i}"
proof -
  from NewX11Forwarder_reaches_first_free [OF create i busy free, of request w]
  obtain w1 where w1: "NewX11Forwarder e request w = attempts e request name None i w1"
    "files w1 = (files w)(name \<mapsto> [])" "listeners w1 = listeners w"
    by auto
  let ?w2 = "w1\<lparr>listeners := insert (candidate i) (listeners w1)\<rparr>"
  have "attempts e request name None i w1
        = (Remove name (Close (candidate i) ?w2), Returns (None, None, Some err))"
    using fail by (auto simp add: attempts_bound [OF i free] Let_def)
  with w1 show ?thesis
    by (intro exI [of _ "Remove name (Close (candidate i) ?w2)"])
      (auto simp add: Remove_def Close_def)
qed

text \<open>
  Claim C5, amended. When the first bind to succeed is the one of attempt \<open>i\<close> and then
  either \<open>prepareXAuthority\<close> returns an error or \<open>os.WriteFile\<close> does, \<open>NewX11Forwarder\<close>
  returns that error with no listener and no file, the listener just bound is closed
  and the temporary file is removed; and whenever \<open>NewX11Forwarder\<close> returns without a
  listener, the temporary file is gone and no listener has been added.
\<close>

theorem NewX11Forwarder_cleans_up_after_bind:
  assumes create: "CreateTemp e = Inr name"
  shows "(i < 50 \<longrightarrow> (\<forall>j<i. Listen e (candidate j) \<noteq> None) \<longrightarrow> Listen e (candidate i) = None \<longrightarrow>
          (prepareXAuthority e request (X11DisplayOffset + int i) = Returns (Inl err)
           \<or> (\<exists>buf. prepareXAuthority e request (X11DisplayOffset + int i) = Returns (Inr buf)
                 \<and> WriteFile e name buf = Some err)) \<longrightarrow>
          (\<exists>w'. NewX11Forwarder e request w = (w', Returns (None, None, Some err))
             \<and> files w' name = None \<and> candidate i \<notin> listeners w'
             \<and> listeners w' = listeners w - {candidate i}))
       \<and> (\<forall>w' f err'. NewX11Forwarder e request w = (w', Returns (None, f, err')) \<longrightarrow>
             files w' name = None \<and> listeners w' \<subseteq> listeners w)"
  using NewX11Forwarder_error_after_bind [OF create, of i request err w]
    NewX11Forwarder_failure [OF create, of request w]
  by blast

text \<open>A cookie that is not hexadecimal, and a disk that is full.\<close>

theorem NewX11Forwarder_cleans_up_after_bind_witness:
  "CreateTemp sample_env = Inr ''/tmp/.Xauthority1''
   \<and> Listen sample_env (candidate 0) = None
   \<and> prepareXAuthority sample_env (sample_request\<lparr>AuthData := ''0g''\<rparr>) (X11DisplayOffset + int 0)
       = Returns (Inl (InvalidByteError (CHR ''g'')))
   \<and> (\<exists>w'. NewX11Forwarder sample_env (sample_request\<lparr>AuthData := ''0g''\<rparr>) sample_world
              = (w', Returns (None, None, Some (InvalidByteError (CHR ''g''))))
          \<and> files w' ''/tmp/.Xauthority1'' = None \<and> listeners w' = {})
   \<and> (\<exists>buf. prepareXAuthority (sample_env\<lparr>WriteFile := \<lambda>name buf. Some no_space\<rparr>)
                sample_request (X11DisplayOffset + int 0) = Returns (Inr buf))
   \<and> (\<exists>w'. NewX11Forwarder (sample_env\<lparr>WriteFile := \<lambda>name buf. Some no_space\<rparr>)
                sample_request sample_world
              = (w', Returns (None, None, Some no_space))
          \<and> files w' ''/tmp/.Xauthority1'' = None \<and> listeners w' = {})"
proof -
  let ?e = "sample_env\<lparr>WriteFile := \<lambda>name buf. Some no_space\<rparr>"
  have c: "CreateTemp sample_env = Inr ''/tmp/.Xauthority1''"
    and l: "Listen sample_env (candidate 0) = None"
    and c': "CreateTemp ?e = Inr ''/tmp/.Xauthority1''"
    and l': "Listen ?e (candidate 0) = None"
    and host: "Hostname ?e = Inr ''h''"
    by (simp_all add: sample_env_def)
  have d: "DecodeString ''0g'' = Inl (InvalidByteError (CHR ''g''))"
    by code_simp
  have p: "prepareXAuthority sample_env (sample_request\<lparr>AuthData := ''0g''\<rparr>)
             (X11DisplayOffset + int 0) = Returns (Inl (InvalidByteError (CHR ''g'')))"
    by (simp add: prepareXAuthority_def d del: DecodeString.simps)
  have dec: "DecodeString (AuthData sample_request)
     = Inr [0, 17, 34, 51, 68, 85, 102, 119, 136, 153, 170, 187, 204, 221, 238, 255]"
    by (simp add: sample_request_def DecodeString_sample del: DecodeString.simps)
  have seat: "X11DisplayOffset + int 0 = 10"
    by (simp add: X11DisplayOffset_def)
  have fit: "length ''h'' + length (Itoa (X11DisplayOffset + int 0))
      + length (AuthProtocol sample_request)
      + length [0, 17, 34, 51, 68, 85, 102, 119, 136, 153, 170, 187, 204, 221, 238, 255 :: byte]
      + 10 < 65536"
    by (simp only: seat Itoa_10) (simp add: sample_request_def)
  from prepareXAuthority_reads_back [OF dec host fit]
  obtain buf where buf: "prepareXAuthority ?e sample_request (X11DisplayOffset + int 0)
      = Returns (Inr buf)"
    by blast
  then have p': "\<exists>buf. prepareXAuthority ?e sample_request (X11DisplayOffset + int 0)
      = Returns (Inr buf) \<and> WriteFile ?e ''/tmp/.Xauthority1'' buf = Some no_space"
    by (simp add: sample_env_def)
  have i: "(0 :: nat) < 50"
    and b: "\<forall>j<(0 :: nat). Listen sample_env (candidate j) \<noteq> None"
    and b': "\<forall>j<(0 :: nat). Listen ?e (candidate j) \<noteq> None"
    by simp_all
  have "\<exists>w'. NewX11Forwarder sample_env (sample_request\<lparr>AuthData := ''0g''\<rparr>) sample_world
              = (w', Returns (None, None, Some (InvalidByteError (CHR ''g''))))
          \<and> files w' ''/tmp/.Xauthority1'' = None \<and> listeners w' = {}"
    using NewX11Forwarder_cleans_up_after_bind [OF c, of 0 "sample_request\<lparr>AuthData := ''0g''\<rparr>"
        "InvalidByteError (CHR ''g'')" sample_world] i b l p
    by (auto simp add: sample_world_def)
  moreover have "\<exists>w'. NewX11Forwarder ?e sample_request sample_world
              = (w', Returns (None, None, Some no_space))
          \<and> files w' ''/tmp/.Xauthority1'' = None \<and> listeners w' = {}"
    using NewX11Forwarder_cleans_up_after_bind [OF c', of 0 sample_request no_space sample_world]
      i b' l' p'
    by (auto simp add: sample_world_def)
  ultimately show ?thesis
    using c l p buf by blast
qed

text \<open>
  Claim C5 as stated fails when \<open>prepareXAuthority\<close> panics after the first bind has
  succeeded, as it does for a protocol name of 65523 bytes: the listener on port 6010
  stays bound and the temporary file stays.
\<close>

theorem listener_and_file_survive_panic:
  "CreateTemp sample_env = Inr ''/tmp/.Xauthority1''
   \<and> Listen sample_env (candidate 0) = None
   \<and> prepareXAuthority sample_env panic_request 10 = Panics IndexOutOfRange
   \<and> NewX11Forwarder sample_env panic_request sample_world
     = (\<lparr>files = [''/tmp/.Xauthority1'' \<mapsto> []], listeners = {''localhost:6010''},
          logged = []\<rparr>,
        Panics IndexOutOfRange)"
proof -
  have c: "CreateTemp sample_env = Inr ''/tmp/.Xauthority1''"
    and l: "Listen sample_env (candidate 0) = None"
    by (simp_all add: sample_env_def)
  have c0: "candidate 0 = ''localhost:6010''"
    by (simp add: candidate_eq Itoa_def char_of_def bit_0)
  have p: "prepareXAuthority sample_env panic_request X11DisplayOffset = Panics IndexOutOfRange"
    using panic_example by (simp add: X11DisplayOffset_def)
  have "NewX11Forwarder sample_env panic_request sample_world
     = (\<lparr>files = [''/tmp/.Xauthority1'' \<mapsto> []], listeners = {''localhost:6010''},
          logged = []\<rparr>,
        Panics IndexOutOfRange)"
    unfolding NewX11Forwarder_def c sum.case Let_def
    by (simp add: attempts_bound [OF _ l] p Let_def c0 sample_world_def)
  then show ?thesis
    using c l panic_example by simp
qed




section \<open>Facts about the forwarding engine\<close>

text \<open>The recorded connections hold neither a failed \<open>Accept\<close> nor a removal.\<close>

lemma served_Suc:
  "served acc (Suc k) = served acc k @ (case acc k of Inl _ \<Rightarrow> [] | Inr c \<Rightarrow> [Accepted c, Spawned c])"
  by (simp add: served_def)

lemma served_no_stop: "AcceptFailed err \<notin> set (served acc k) \<and> Removed f \<notin> set (served acc k)"
  by (induction k) (auto simp add: served_Suc served_def split: sum.splits)

text \<open>While \<open>Accept\<close> gives connections the loop goes on; at the first error it returns.\<close>

lemma accepting_stops:
  assumes "acc k = Inl err" and "\<forall>j<k. \<exists>c. acc j = Inr c" and "i \<le> k"
  shows "accepting acc i (tr @ served acc i) = Some (tr @ served acc k @ [AcceptFailed err])"
  using assms(3)
proof (induction "k - i" arbitrary: i)
  case 0
  then have "i = k" by simp
  then show ?case
    using assms(1) by (subst accepting.simps) simp
next
  case (Suc d)
  then have ik: "i < k" by simp
  with assms(2) obtain c where c: "acc i = Inr c" by auto
  from Suc(2) ik have "d = k - Suc i" by simp
  from Suc(1) [OF this] ik
  have "accepting acc (Suc i) (tr @ served acc (Suc i)) = Some (tr @ served acc k @ [AcceptFailed err])"
    by simp
  then show ?case
    using c by (subst accepting.simps) (simp add: served_Suc)
qed

text \<open>A loop that returns has met a failing \<open>Accept\<close>; without one it never returns.\<close>

lemma accepting_Some_fails:
  "accepting acc i tr = Some y \<Longrightarrow> \<exists>k\<ge>i. \<exists>err. acc k = Inl err"
proof (induction rule: accepting.raw_induct [rotated 1, consumes 1])
  case (1 accepting acc k tr y)
  show ?case
  proof (cases "acc k")
    case (Inl err)
    then show ?thesis by auto
  next
    case (Inr c)
    with 1(2) have "accepting acc (Suc k) (tr @ [Accepted c, Spawned c]) = Some y" by simp
    from 1(1) [OF this] obtain k' err where "Suc k \<le> k'" "acc k' = Inl err" by auto
    then show ?thesis by (intro exI [of _ k']) auto
  qed
qed

lemma accepting_forever:
  "\<forall>k. \<exists>c. acc k = Inr c \<Longrightarrow> accepting acc i tr = None"
proof (rule ccontr)
  assume all: "\<forall>k. \<exists>c. acc k = Inr c" and "accepting acc i tr \<noteq> None"
  then obtain y where "accepting acc i tr = Some y" by auto
  from accepting_Some_fails [OF this] obtain k err where "acc k = Inl err" by auto
  with all show False by (metis sum.distinct(1))
qed

lemma first_failure:
  fixes acc :: "nat \<Rightarrow> error + conn"
  assumes "acc k = Inl err"
  shows "\<exists>k' err'. acc k' = Inl err' \<and> (\<forall>j<k'. \<exists>c. acc j = Inr c)"
proof -
  define k' where "k' = (LEAST n. \<exists>e. acc n = Inl e)"
  have "\<exists>e. acc k' = Inl e"
    unfolding k'_def using assms by (intro LeastI [of "\<lambda>n. \<exists>e. acc n = Inl e" k]) auto
  moreover have "\<exists>c. acc j = Inr c" if "j < k'" for j
  proof -
    from that have "\<not> (\<exists>e. acc j = Inl e)"
      unfolding k'_def by (rule not_less_Least)
    then show ?thesis by (cases "acc j") auto
  qed
  ultimately show ?thesis by auto
qed

text \<open>
  Claim C9, amended. Every run of the engine that stops removes the authority file
  exactly once, as its last action. Once the session's connection is at hand, the engine
  stops exactly at the first failing \<open>Accept\<close>, whatever the error (a closed listener or
  any other), and removes the file right after it; it does stop when some \<open>Accept\<close>
  fails, and while every \<open>Accept\<close> succeeds it neither stops nor removes the file.
\<close>

theorem ForwardX11Connections_removes_once:
  "(\<forall>res tr. ForwardX11Connections s xauth = Some (res, tr) \<longrightarrow>
       (\<exists>pre. tr = pre @ [Removed xauth] \<and> (\<forall>f. Removed f \<notin> set pre))
     \<and> (ContextConn s \<noteq> None \<longrightarrow>
          (\<exists>k err. Accept s k = Inl err \<and> (\<forall>j<k. \<exists>c. Accept s j = Inr c)
             \<and> res = Returns ()
             \<and> tr = served (Accept s) k @ [AcceptFailed err, Removed xauth])))
   \<and> (ContextConn s \<noteq> None \<longrightarrow> (\<exists>k err. Accept s k = Inl err) \<longrightarrow>
         ForwardX11Connections s xauth \<noteq> None)
   \<and> (ContextConn s \<noteq> None \<longrightarrow> (\<forall>k. \<exists>c. Accept s k = Inr c) \<longrightarrow>
         ForwardX11Connections s xauth = None)"
proof (intro conjI allI impI)
  fix res tr
  assume run: "ForwardX11Connections s xauth = Some (res, tr)"
  show "\<exists>pre. tr = pre @ [Removed xauth] \<and> (\<forall>f. Removed f \<notin> set pre)"
  proof (cases "ContextConn s")
    case None
    with run have "tr = [] @ [Removed xauth]"
      by (simp add: ForwardX11Connections_def)
    then show ?thesis by (intro exI [of _ "[]"]) simp
  next
    case (Some sshConn)
    with run obtain tr0 where tr0: "accepting (Accept s) 0 [] = Some tr0"
      and tr: "tr = tr0 @ [Removed xauth]"
      by (auto simp add: ForwardX11Connections_def split: option.splits)
    from accepting_Some_fails [OF tr0] obtain k0 err0 where "Accept s k0 = Inl err0" by auto
    from first_failure [of "Accept s" k0 err0, OF this] obtain k err where k: "Accept s k = Inl err"
      "\<forall>j<k. \<exists>c. Accept s j = Inr c" by auto
    from accepting_stops [OF k, of 0 "[]"] tr0
    have "tr0 = served (Accept s) k @ [AcceptFailed err]"
      by (simp add: served_def)
    with tr show ?thesis
      using served_no_stop [of _ "Accept s" k]
      by (intro exI [of _ tr0]) auto
  qed
  assume conn: "ContextConn s \<noteq> None"
  with run obtain tr0 where tr0: "accepting (Accept s) 0 [] = Some tr0"
    and tr: "tr = tr0 @ [Removed xauth]" and res: "res = Returns ()"
    by (auto simp add: ForwardX11Connections_def split: option.splits)
  from accepting_Some_fails [OF tr0] obtain k0 err0 where "Accept s k0 = Inl err0" by auto
  from first_failure [of "Accept s" k0 err0, OF this] obtain k err where k: "Accept s k = Inl err"
    "\<forall>j<k. \<exists>c. Accept s j = Inr c" by auto
  from accepting_stops [OF k, of 0 "[]"] tr0
  have "tr0 = served (Accept s) k @ [AcceptFailed err]"
    by (simp add: served_def)
  with tr res k
  show "\<exists>k err. Accept s k = Inl err \<and> (\<forall>j<k. \<exists>c. Accept s j = Inr c)
             \<and> res = Returns ()
             \<and> tr = served (Accept s) k @ [AcceptFailed err, Removed xauth]"
    by (intro exI [of _ k] exI [of _ err]) simp
next
  assume conn: "ContextConn s \<noteq> None" and "\<exists>k err. Accept s k = Inl err"
  then obtain k0 err0 where "Accept s k0 = Inl err0" by auto
  from first_failure [of "Accept s" k0 err0, OF this] obtain k err where k: "Accept s k = Inl err"
    "\<forall>j<k. \<exists>c. Accept s j = Inr c" by auto
  from accepting_stops [OF k, of 0 "[]"]
  have "accepting (Accept s) 0 [] \<noteq> None"
    by (simp add: served_def)
  with conn show "ForwardX11Connections s xauth \<noteq> None"
    by (auto simp add: ForwardX11Connections_def split: option.splits)
next
  assume conn: "ContextConn s \<noteq> None" and "\<forall>k. \<exists>c. Accept s k = Inr c"
  then have "accepting (Accept s) 0 [] = None"
    by (intro accepting_forever)
  with conn show "ForwardX11Connections s xauth = None"
    by (auto simp add: ForwardX11Connections_def split: option.splits)
qed

text \<open>Two connections, then the listener is closed.\<close>

lemma served_closed_after_two:
  "served (Accept closed_after_two) 2 = [Accepted 7, Spawned 7, Accepted 8, Spawned 8]"
  by (simp add: served_def closed_after_two_def numeral_2_eq_2)

theorem ForwardX11Connections_removes_once_witness:
  "ContextConn closed_after_two \<noteq> None
   \<and> (\<exists>k err. Accept closed_after_two k = Inl err)
   \<and> ForwardX11Connections closed_after_two ''/tmp/.Xauthority1''
     = Some (Returns (), [Accepted 7, Spawned 7, Accepted 8, Spawned 8,
                          AcceptFailed ErrClosed, Removed ''/tmp/.Xauthority1''])"
proof -
  have conn: "ContextConn closed_after_two \<noteq> None"
    by (simp add: closed_after_two_def)
  have stop: "\<exists>k err. Accept closed_after_two k = Inl err"
    by (intro exI [of _ 2] exI [of _ ErrClosed]) (simp add: closed_after_two_def)
  from ForwardX11Connections_removes_once [of closed_after_two "''/tmp/.Xauthority1''"] conn stop
  obtain res tr where run: "ForwardX11Connections closed_after_two ''/tmp/.Xauthority1'' = Some (res, tr)"
    by fastforce
  with ForwardX11Connections_removes_once [of closed_after_two "''/tmp/.Xauthority1''"] conn
  obtain k err where k: "Accept closed_after_two k = Inl err"
    "\<forall>j<k. \<exists>c. Accept closed_after_two j = Inr c" "res = Returns ()"
    "tr = served (Accept closed_after_two) k @ [AcceptFailed err, Removed ''/tmp/.Xauthority1'']"
    by blast
  from k(1) have "2 \<le> k" and err: "err = ErrClosed"
    by (auto simp add: closed_after_two_def split: if_splits)
  moreover have "k \<le> 2"
  proof (rule ccontr)
    assume "\<not> k \<le> 2"
    then have "2 < k" by simp
    with k(2) obtain c where "Accept closed_after_two 2 = Inr c" by blast
    then show False by (simp add: closed_after_two_def)
  qed
  ultimately have "k = 2" by simp
  with k err run conn stop show ?thesis
    by (simp add: served_closed_after_two)
qed

text \<open>
  Claim C9 as stated fails when the first \<open>Accept\<close> fails for want of file descriptors:
  the engine stops and removes the file while the listener is open, no \<open>Accept\<close> having
  reported it closed.
\<close>

theorem authority_file_removed_with_listener_open:
  "Accept too_many_files 0 = Inl (SyscallError ''accept: too many open files'')
   \<and> ForwardX11Connections too_many_files ''/tmp/.Xauthority1''
     = Some (Returns (), [AcceptFailed (SyscallError ''accept: too many open files''),
                          Removed ''/tmp/.Xauthority1''])"
  by (simp add: ForwardX11Connections_def too_many_files_def accepting.simps [of _ 0])

end
